theory Spec2Isabelle
  imports Complex_Main
begin

section \<open>Calendar dates\<close>

text \<open>
  The \<^verbatim>\<open>date\<close> column of \<^verbatim>\<open>data/merged.csv\<close> is parsed into pandas timestamps
  (\<^verbatim>\<open>parse_dates=["date"]\<close>). A timestamp is kept here at day resolution, with the fields
  a \<^verbatim>\<open>Timestamp\<close> object carries. \<^verbatim>\<open>pd.Timestamp.toordinal\<close> is the proleptic Gregorian
  ordinal, where 0001-01-01 is day 1, computed as Python's \<^verbatim>\<open>datetime\<close> computes it. The
  helper functions below keep the names of the standard library (\<^verbatim>\<open>_is_leap\<close>,
  \<^verbatim>\<open>_days_before_year\<close>, \<^verbatim>\<open>_days_in_month\<close>, \<^verbatim>\<open>_days_before_month\<close>,
  \<^verbatim>\<open>_ymd2ord\<close>); the two tables are the library's without the placeholder at index 0,
  and are read at the month minus one. A timestamp holds no year after \<^verbatim>\<open>MAXYEAR\<close>, the
  last year of Python's \<^verbatim>\<open>datetime\<close>. A time of day is not part of the model.
\<close>

record timestamp =
  year :: int
  month :: nat
  day :: nat

definition is_leap :: "int \<Rightarrow> bool" where
  "is_leap y = (y mod 4 = 0 \<and> (y mod 100 \<noteq> 0 \<or> y mod 400 = 0))"

definition DAYS_IN_MONTH :: "nat list" where
  "DAYS_IN_MONTH = [31, 28, 31, 30, 31, 30, 31, 31, 30, 31, 30, 31]"

definition DAYS_BEFORE_MONTH :: "nat list" where
  "DAYS_BEFORE_MONTH = [0, 31, 59, 90, 120, 151, 181, 212, 243, 273, 304, 334]"

definition days_before_year :: "int \<Rightarrow> int" where
  "days_before_year y = (y - 1) * 365 + (y - 1) div 4 - (y - 1) div 100 + (y - 1) div 400"

definition days_in_month :: "int \<Rightarrow> nat \<Rightarrow> nat" where
  "days_in_month y m = (if m = 2 \<and> is_leap y then 29 else DAYS_IN_MONTH ! (m - 1))"

definition days_before_month :: "int \<Rightarrow> nat \<Rightarrow> nat" where
  "days_before_month y m =
     DAYS_BEFORE_MONTH ! (m - 1) + (if 2 < m \<and> is_leap y then 1 else 0)"

definition toordinal :: "timestamp \<Rightarrow> int" where
  "toordinal t =
     days_before_year (year t) + int (days_before_month (year t) (month t)) + int (day t)"

text \<open>A date of the calendar: a month from 1 to 12 and a day of that month.\<close>

definition calendar_date :: "timestamp \<Rightarrow> bool" where
  "calendar_date t =
     (1 \<le> year t \<and> 1 \<le> month t \<and> month t \<le> 12 \<and> 1 \<le> day t
      \<and> day t \<le> days_in_month (year t) (month t))"

definition MAXYEAR :: int where
  "MAXYEAR = 9999"

text \<open>The dates a timestamp can hold: the dates of the calendar up to 9999-12-31.\<close>

definition valid_date :: "timestamp \<Rightarrow> bool" where
  "valid_date t = (calendar_date t \<and> year t \<le> MAXYEAR)"

text \<open>
  \<^verbatim>\<open>t + pd.Timedelta(days=1)\<close>: the following calendar day. The day after 9999-12-31 is
  computed here like any other; it is no timestamp, and line 62 raises on it (see
  \<open>X_future\<close> below).
\<close>

definition next_day :: "timestamp \<Rightarrow> timestamp" where
  "next_day t =
     (if day t < days_in_month (year t) (month t) then t\<lparr>day := day t + 1\<rparr>
      else if month t < 12 then t\<lparr>month := month t + 1, day := 1\<rparr>
      else t\<lparr>year := year t + 1, month := 1, day := 1\<rparr>)"

text \<open>
  \<^verbatim>\<open>pd.date_range(start, periods=n, freq="D")\<close>: \<open>n\<close> consecutive days, the first
  being \<open>start\<close>.
\<close>

fun date_range :: "timestamp \<Rightarrow> nat \<Rightarrow> timestamp list" where
  "date_range start 0 = []"
| "date_range start (Suc n) = start # date_range (next_day start) n"

text \<open>
  \<^verbatim>\<open>df["date"].max()\<close>: the latest timestamp of the column; of an empty column it is
  \<^verbatim>\<open>NaT\<close>, here \<open>None\<close>.
\<close>

fun date_max :: "timestamp list \<Rightarrow> timestamp option" where
  "date_max [] = None"
| "date_max (t # ts) =
     Some (fold (\<lambda>a b. if toordinal b < toordinal a then a else b) ts t)"

text \<open>
  \<^verbatim>\<open>months_order\<close> (lines 97-98) and \<^verbatim>\<open>strftime("%B")\<close> (line 91): the full month name,
  in the English names the script reindexes by.
\<close>

definition months_order :: "string list" where
  "months_order =
     [''January'', ''February'', ''March'', ''April'', ''May'', ''June'',
      ''July'', ''August'', ''September'', ''October'', ''November'', ''December'']"

definition strftime_B :: "timestamp \<Rightarrow> string" where
  "strftime_B t = months_order ! (month t - 1)"

section \<open>The data frame and the regression\<close>

text \<open>One row of \<^verbatim>\<open>data/merged.csv\<close>; the data frame \<^verbatim>\<open>df\<close> is the list of its rows.\<close>

record row =
  date :: timestamp
  usage_kwh :: real
  price_per_kwh :: real
  daily_cost :: real

type_synonym dataframe = "row list"

datatype error =
  ValueError | FileNotFoundError | UnpicklingError | NameError | DateOutOfRange

text \<open>
  A fitted \<^verbatim>\<open>LinearRegression\<close> over the single feature \<^verbatim>\<open>X\<close> (the ordinals): its
  \<^verbatim>\<open>coef_\<close> and \<^verbatim>\<open>intercept_\<close>. Floating-point numbers are taken as reals.
\<close>

record linear_regression =
  coef :: real
  intercept :: real

definition mean :: "real list \<Rightarrow> real" where
  "mean ys = sum_list ys / real (length ys)"

text \<open>
  \<^verbatim>\<open>LinearRegression().fit(X, y)\<close>: ordinary least squares with an intercept. The
  estimator centres \<open>X\<close> and \<open>y\<close> and takes the least-squares solution of minimal norm, so
  the slope is 0 when all ordinals are equal. It raises \<^verbatim>\<open>ValueError\<close> on zero samples
  and on \<open>X\<close> and \<open>y\<close> of different lengths.
\<close>

definition fit :: "int list \<Rightarrow> real list \<Rightarrow> error + linear_regression" where
  "fit X y =
     (if X = [] \<or> length X \<noteq> length y then Inl ValueError
      else
        let xs = map real_of_int X;
            X_offset = mean xs;
            y_offset = mean y;
            sxx = (\<Sum>x\<leftarrow>xs. (x - X_offset) * (x - X_offset));
            sxy = (\<Sum>(x, v)\<leftarrow>zip xs y. (x - X_offset) * (v - y_offset));
            w = (if sxx = 0 then 0 else sxy / sxx)
        in Inr \<lparr>coef = w, intercept = y_offset - X_offset * w\<rparr>)"

text \<open>\<^verbatim>\<open>model.predict(X)\<close>: \<open>X\<close> times \<^verbatim>\<open>coef_\<close> plus \<^verbatim>\<open>intercept_\<close>, row by row.\<close>

definition predict :: "linear_regression \<Rightarrow> int list \<Rightarrow> real list" where
  "predict m X = map (\<lambda>x. real_of_int x * coef m + intercept m) X"

section \<open>The model files\<close>

text \<open>
  The directory \<^verbatim>\<open>models/\<close>: a map from paths to file contents. A file either unpickles to a
  fitted model or does not unpickle. \<open>trainings\<close> is a ghost counter, not a variable of the
  script: it counts the completed calls of \<^verbatim>\<open>train_and_save_models\<close>, so that "training
  ran" can be stated. Failures of the file system itself (a full disk, missing permissions)
  are not modelled.
\<close>

datatype file_content = Pickle linear_regression | Unreadable

record world =
  files :: "string \<rightharpoonup> file_content"
  trainings :: nat

definition usage_model_pkl :: string where
  "usage_model_pkl = ''models/usage_model.pkl''"

definition price_model_pkl :: string where
  "price_model_pkl = ''models/price_model.pkl''"

definition cost_model_pkl :: string where
  "cost_model_pkl = ''models/cost_model.pkl''"

text \<open>
  \<^verbatim>\<open>train_and_save_models(df)\<close> (lines 18-34). The three fits come before the first write,
  so when a fit raises nothing has been written: \<open>Inl e\<close> stands for the exception \<open>e\<close>
  leaving the world as it was.
\<close>

definition train_and_save_models :: "dataframe \<Rightarrow> world \<Rightarrow> error + world" where
  "train_and_save_models df w =
     (let X = map (\<lambda>r. toordinal (date r)) df;
          usage_y = map usage_kwh df;
          price_y = map price_per_kwh df;
          cost_y = map daily_cost df
      in case fit X usage_y of Inl e \<Rightarrow> Inl e | Inr usage_model \<Rightarrow>
        (case fit X price_y of Inl e \<Rightarrow> Inl e | Inr price_model \<Rightarrow>
          (case fit X cost_y of Inl e \<Rightarrow> Inl e | Inr cost_model \<Rightarrow>
            Inr (w\<lparr>files := (files w)
                     (usage_model_pkl \<mapsto> Pickle usage_model,
                      price_model_pkl \<mapsto> Pickle price_model,
                      cost_model_pkl \<mapsto> Pickle cost_model),
                   trainings := Suc (trainings w)\<rparr>))))"

definition path_exists :: "world \<Rightarrow> string \<Rightarrow> bool" where
  "path_exists w p = (files w p \<noteq> None)"

text \<open>The condition of line 36, before its negation: all three model files exist.\<close>

definition models_present :: "world \<Rightarrow> bool" where
  "models_present w =
     (path_exists w usage_model_pkl \<and> path_exists w price_model_pkl
      \<and> path_exists w cost_model_pkl)"

text \<open>Lines 36-37: train if one of the three files is missing.\<close>

definition train_if_missing :: "dataframe \<Rightarrow> world \<Rightarrow> error + world" where
  "train_if_missing df w =
     (if \<not> models_present w then train_and_save_models df w else Inr w)"

text \<open>\<^verbatim>\<open>pickle.load(open(path, "rb"))\<close>.\<close>

definition pickle_load :: "world \<Rightarrow> string \<Rightarrow> error + linear_regression" where
  "pickle_load w p =
     (case files w p of
        None \<Rightarrow> Inl FileNotFoundError
      | Some Unreadable \<Rightarrow> Inl UnpicklingError
      | Some (Pickle m) \<Rightarrow> Inr m)"

record models =
  usage_model :: linear_regression
  price_model :: linear_regression
  cost_model :: linear_regression

text \<open>Lines 53-58: the three models are read back from their files.\<close>

definition load_models :: "world \<Rightarrow> error + models" where
  "load_models w =
     (case pickle_load w usage_model_pkl of Inl e \<Rightarrow> Inl e | Inr um \<Rightarrow>
       (case pickle_load w price_model_pkl of Inl e \<Rightarrow> Inl e | Inr pm \<Rightarrow>
         (case pickle_load w cost_model_pkl of Inl e \<Rightarrow> Inl e | Inr cm \<Rightarrow>
           Inr \<lparr>usage_model = um, price_model = pm, cost_model = cm\<rparr>)))"

text \<open>
  Lines 36-58 together: what the script does to obtain its models from a series, and the
  world it leaves.
\<close>

definition get_or_train :: "dataframe \<Rightarrow> world \<Rightarrow> error + (models \<times> world)" where
  "get_or_train df w =
     (case train_if_missing df w of Inl e \<Rightarrow> Inl e | Inr w1 \<Rightarrow>
       (case load_models w1 of Inl e \<Rightarrow> Inl e | Inr ms \<Rightarrow> Inr (ms, w1)))"

section \<open>The forecast\<close>

text \<open>The number of periods of line 61.\<close>

definition horizon_days :: nat where
  "horizon_days = 90"

text \<open>
  Line 61. Of an empty frame the maximum is \<^verbatim>\<open>NaT\<close>, which \<^verbatim>\<open>date_range\<close> refuses with
  \<^verbatim>\<open>ValueError\<close>.
\<close>

definition future_dates :: "dataframe \<Rightarrow> error + timestamp list" where
  "future_dates df =
     (case date_max (map date df) of
        None \<Rightarrow> Inl ValueError
      | Some d \<Rightarrow> Inr (date_range (next_day d) horizon_days))"

record forecast_row =
  fdate :: timestamp
  forecast_usage :: real
  forecast_price :: real
  forecast_cost :: real

text \<open>
  Line 62: \<^verbatim>\<open>future_dates.map(pd.Timestamp.toordinal)\<close>. Each date of the range is made a
  timestamp and its ordinal taken. A date after 9999-12-31 is no timestamp: the line raises
  on a range that holds one. \<open>DateOutOfRange\<close> stands for that exception, whatever its
  class.
\<close>

definition X_future :: "timestamp list \<Rightarrow> error + int list" where
  "X_future fd =
     (if list_ex (\<lambda>t. MAXYEAR < year t) fd then Inl DateOutOfRange
      else Inr (map toordinal fd))"

text \<open>Lines 61-73: \<^verbatim>\<open>forecast_df\<close>, one row per future date.\<close>

definition forecast_df :: "models \<Rightarrow> dataframe \<Rightarrow> error + forecast_row list" where
  "forecast_df ms df =
     (case future_dates df of
        Inl e \<Rightarrow> Inl e
      | Inr fd \<Rightarrow>
         (case X_future fd of
            Inl e \<Rightarrow> Inl e
          | Inr X \<Rightarrow>
              let fu = predict (usage_model ms) X;
                  fp = predict (price_model ms) X;
                  fc = predict (cost_model ms) X
              in Inr (map (\<lambda>(t, u, p, c).
                        \<lparr>fdate = t, forecast_usage = u, forecast_price = p,
                         forecast_cost = c\<rparr>)
                      (zip fd (zip fu (zip fp fc))))))"

section \<open>Seasonality\<close>

text \<open>
  \<^verbatim>\<open>df.groupby("month")[column].mean()\<close>: a series indexed by the month names that occur,
  each with the mean of its rows' values.
\<close>

definition groupby_mean :: "(string \<times> real) list \<Rightarrow> (string \<rightharpoonup> real)" where
  "groupby_mean kvs k =
     (let vs = map snd (filter (\<lambda>kv. fst kv = k) kvs)
      in if vs = [] then None else Some (mean vs))"

text \<open>
  \<^verbatim>\<open>series.reindex(labels)\<close>: one entry per label, in the labels' order; a label the series
  does not have gets \<^verbatim>\<open>NaN\<close>, here \<open>None\<close>.
\<close>

definition reindex :: "(string \<rightharpoonup> real) \<Rightarrow> string list \<Rightarrow> (string \<times> real option) list" where
  "reindex s labels = map (\<lambda>k. (k, s k)) labels"

text \<open>Lines 91-99.\<close>

definition monthly_usage :: "dataframe \<Rightarrow> (string \<times> real option) list" where
  "monthly_usage df =
     reindex (groupby_mean (map (\<lambda>r. (strftime_B (date r), usage_kwh r)) df)) months_order"

text \<open>Lines 164-165.\<close>

definition monthly_cost :: "dataframe \<Rightarrow> (string \<times> real option) list" where
  "monthly_cost df =
     reindex (groupby_mean (map (\<lambda>r. (strftime_B (date r), daily_cost r)) df)) months_order"

text \<open>
  Lines 108-111: the frame with the columns "Usage (kWh)" and "Cost ($)" over the index
  \<^verbatim>\<open>months_order\<close>. Its second column is the global name \<^verbatim>\<open>monthly_cost\<close>; the argument
  \<open>cost_binding\<close> is what that name is bound to when the line runs, \<open>None\<close> when it is
  unbound, and reading an unbound name raises \<^verbatim>\<open>NameError\<close>.
\<close>

definition monthly_usage_cost ::
  "(string \<times> real option) list \<Rightarrow> (string \<times> real option) list option
   \<Rightarrow> error + (string \<times> real option \<times> real option) list" where
  "monthly_usage_cost usage cost_binding =
     (case cost_binding of
        None \<Rightarrow> Inl NameError
      | Some cost \<Rightarrow>
          Inr (map (\<lambda>k. (k, (case map_of usage k of None \<Rightarrow> None | Some v \<Rightarrow> v),
                            (case map_of cost k of None \<Rightarrow> None | Some v \<Rightarrow> v)))
                 months_order))"

section \<open>The script\<close>

record report =
  forecast :: "forecast_row list"
  seasonality :: "(string \<times> real option \<times> real option) list"

text \<open>
  The script from line 15 on, in the order of its statements, for the frame read at line 15
  and the files found. An exception ends the run. The run reaches line 108 with
  \<^verbatim>\<open>monthly_cost\<close> unbound: its only assignment is at line 164. The result is the world the
  run leaves and either the exception or what was computed. The calls that only draw
  (\<^verbatim>\<open>st.line_chart\<close> and the like) are left out, and so is the import of lines 11-12
  that builds the CSV file when it is missing.
\<close>

definition dashboard :: "dataframe \<Rightarrow> world \<Rightarrow> world \<times> (error + report)" where
  "dashboard df w =
     (case train_if_missing df w of
        Inl e \<Rightarrow> (w, Inl e)
      | Inr w1 \<Rightarrow>
          (w1,
           case load_models w1 of Inl e \<Rightarrow> Inl e | Inr ms \<Rightarrow>
            (case forecast_df ms df of Inl e \<Rightarrow> Inl e | Inr fc \<Rightarrow>
              (case monthly_usage_cost (monthly_usage df) None of
                 Inl e \<Rightarrow> Inl e
               | Inr muc \<Rightarrow> Inr \<lparr>forecast = fc, seasonality = muc\<rparr>))))"

section \<open>The invariant of the specification\<close>

text \<open>
  The invariant of the data model in section 3 of the specification, in its words: the
  dates of the series are strictly increasing, so none occurs twice. The script has no such
  check; the predicate only names the series that break the invariant.
\<close>

definition spec_dates_strictly_increasing :: "dataframe \<Rightarrow> bool" where
  "spec_dates_strictly_increasing df =
     sorted_wrt (\<lambda>a b. toordinal (date a) < toordinal (date b)) df"

section \<open>Concrete inputs\<close>

text \<open>Two days at the end of February of a leap year.\<close>

definition series_feb :: dataframe where
  "series_feb =
     [\<lparr>date = \<lparr>year = 2024, month = 2, day = 27\<rparr>,
        usage_kwh = 10, price_per_kwh = 1 / 5, daily_cost = 2\<rparr>,
      \<lparr>date = \<lparr>year = 2024, month = 2, day = 28\<rparr>,
        usage_kwh = 12, price_per_kwh = 1 / 4, daily_cost = 3\<rparr>]"

text \<open>Three fitted models; the first falls by one unit a day.\<close>

definition models_falling :: models where
  "models_falling =
     \<lparr>usage_model = \<lparr>coef = - 1, intercept = 0\<rparr>,
      price_model = \<lparr>coef = 0, intercept = 1 / 4\<rparr>,
      cost_model = \<lparr>coef = 2, intercept = - 5\<rparr>\<rparr>"

text \<open>A models directory without files, on which nothing has been trained.\<close>

definition no_files :: world where
  "no_files = \<lparr>files = Map.empty, trainings = 0\<rparr>"

text \<open>
  A series of one day; the same series with its usage value changed; and the models
  directory as training on the first of them leaves it.
\<close>

definition series_one :: dataframe where
  "series_one =
     [\<lparr>date = \<lparr>year = 2024, month = 1, day = 15\<rparr>,
        usage_kwh = 10, price_per_kwh = 1 / 5, daily_cost = 2\<rparr>]"

definition series_one_edited :: dataframe where
  "series_one_edited =
     [\<lparr>date = \<lparr>year = 2024, month = 1, day = 15\<rparr>,
        usage_kwh = 11, price_per_kwh = 1 / 5, daily_cost = 2\<rparr>]"

definition models_one :: models where
  "models_one =
     \<lparr>usage_model = \<lparr>coef = 0, intercept = 10\<rparr>,
      price_model = \<lparr>coef = 0, intercept = 1 / 5\<rparr>,
      cost_model = \<lparr>coef = 0, intercept = 2\<rparr>\<rparr>"

definition trained_once :: world where
  "trained_once =
     \<lparr>files = [usage_model_pkl \<mapsto> Pickle (usage_model models_one),
                price_model_pkl \<mapsto> Pickle (price_model models_one),
                cost_model_pkl \<mapsto> Pickle (cost_model models_one)],
      trainings = 1\<rparr>"

text \<open>A series with the same date twice.\<close>

definition series_duplicate :: dataframe where
  "series_duplicate =
     [\<lparr>date = \<lparr>year = 2024, month = 1, day = 15\<rparr>,
        usage_kwh = 10, price_per_kwh = 1 / 5, daily_cost = 2\<rparr>,
      \<lparr>date = \<lparr>year = 2024, month = 1, day = 15\<rparr>,
        usage_kwh = 30, price_per_kwh = 1 / 5, daily_cost = 6\<rparr>]"

text \<open>A series that ends on the last day a timestamp can hold.\<close>

definition series_last_day :: dataframe where
  "series_last_day =
     [\<lparr>date = \<lparr>year = 9999, month = 12, day = 31\<rparr>,
        usage_kwh = 10, price_per_kwh = 1 / 5, daily_cost = 2\<rparr>]"

text \<open>Two January days of different years and one July day.\<close>

definition series_seasons :: dataframe where
  "series_seasons =
     [\<lparr>date = \<lparr>year = 2023, month = 1, day = 10\<rparr>,
        usage_kwh = 10, price_per_kwh = 1 / 5, daily_cost = 2\<rparr>,
      \<lparr>date = \<lparr>year = 2024, month = 1, day = 20\<rparr>,
        usage_kwh = 20, price_per_kwh = 1 / 5, daily_cost = 4\<rparr>,
      \<lparr>date = \<lparr>year = 2024, month = 7, day = 4\<rparr>,
        usage_kwh = 30, price_per_kwh = 3 / 10, daily_cost = 9\<rparr>]"

section \<open>Facts about the calendar\<close>

lemma days_before_month_step:
  assumes "1 \<le> m" "m < 12"
  shows "days_before_month y (m + 1) = days_before_month y m + days_in_month y m"
proof -
  from assms have "m = 1 \<or> m = 2 \<or> m = 3 \<or> m = 4 \<or> m = 5 \<or> m = 6 \<or> m = 7 \<or> m = 8
    \<or> m = 9 \<or> m = 10 \<or> m = 11"
    by arith
  then show ?thesis
    by (elim disjE)
      (simp_all add: days_before_month_def days_in_month_def DAYS_BEFORE_MONTH_def
        DAYS_IN_MONTH_def)
qed

lemma div_succ:
  fixes y k :: int
  assumes "0 < k"
  shows "(y + 1) div k = y div k + (if (y + 1) mod k = 0 then 1 else 0)"
proof -
  define q where "q = y div k"
  define r where "r = y mod k"
  have r: "0 \<le> r" "r < k"
    using assms by (simp_all add: r_def)
  have y: "y = k * q + r"
    by (simp add: q_def r_def)
  show ?thesis
  proof (cases "r + 1 = k")
    case True
    then have e: "y + 1 = k * (q + 1) + 0"
      using y by (simp add: algebra_simps)
    have "(y + 1) div k = q + 1"
      by (rule int_div_pos_eq[OF e]) (use assms in simp_all)
    moreover have "(y + 1) mod k = 0"
      by (rule int_mod_pos_eq[OF e]) (use assms in simp_all)
    ultimately show ?thesis
      by (simp add: q_def)
  next
    case False
    then have lt: "r + 1 < k"
      using r by simp
    have e: "y + 1 = k * q + (r + 1)"
      using y by simp
    have "(y + 1) div k = q"
      by (rule int_div_pos_eq[OF e]) (use r lt in simp_all)
    moreover have "(y + 1) mod k = r + 1"
      by (rule int_mod_pos_eq[OF e]) (use r lt in simp_all)
    ultimately show ?thesis
      using r by (simp add: q_def)
  qed
qed

lemma div_pred:
  fixes y k :: int
  assumes "0 < k"
  shows "y div k = (y - 1) div k + (if y mod k = 0 then 1 else 0)"
  using div_succ[OF assms, of "y - 1"] by simp

text \<open>A year has 365 days, and one more when it is a leap year.\<close>

lemma days_before_year_step:
  "days_before_year (y + 1) = days_before_year y + 365 + (if is_leap y then 1 else 0)"
proof -
  define A :: int where "A = (if y mod 4 = 0 then 1 else 0)"
  define B :: int where "B = (if y mod 100 = 0 then 1 else 0)"
  define C :: int where "C = (if y mod 400 = 0 then 1 else 0)"
  have a: "y div 4 = (y - 1) div 4 + A"
    unfolding A_def by (rule div_pred) simp
  have b: "y div 100 = (y - 1) div 100 + B"
    unfolding B_def by (rule div_pred) simp
  have c: "y div 400 = (y - 1) div 400 + C"
    unfolding C_def by (rule div_pred) simp
  have d: "y mod 400 = 0 \<Longrightarrow> y mod 100 = 0"
    using dvd_trans[of "100::int" 400 y] by (simp add: mod_eq_0_iff_dvd)
  have e: "y mod 100 = 0 \<Longrightarrow> y mod 4 = 0"
    using dvd_trans[of "4::int" 100 y] by (simp add: mod_eq_0_iff_dvd)
  have leap: "A - B + C = (if is_leap y then 1 else 0)"
  proof (cases "y mod 4 = 0")
    case False
    then have n100: "y mod 100 \<noteq> 0"
      using e by (elim contrapos_nn)
    then have "y mod 400 \<noteq> 0"
      using d by (elim contrapos_nn)
    with False n100 show ?thesis
      by (simp add: A_def B_def C_def is_leap_def)
  next
    case T4: True
    show ?thesis
    proof (cases "y mod 100 = 0")
      case False
      then have "y mod 400 \<noteq> 0"
        using d by (elim contrapos_nn)
      with T4 False show ?thesis
        by (simp add: A_def B_def C_def is_leap_def)
    next
      case True
      with T4 show ?thesis
        by (simp add: A_def B_def C_def is_leap_def)
    qed
  qed
  have "days_before_year (y + 1) = y * 365 + y div 4 - y div 100 + y div 400"
    by (simp add: days_before_year_def)
  also have "\<dots> = y * 365 + ((y - 1) div 4 + A) - ((y - 1) div 100 + B)
      + ((y - 1) div 400 + C)"
    by (simp only: a b c)
  also have "\<dots> = ((y - 1) * 365 + (y - 1) div 4 - (y - 1) div 100 + (y - 1) div 400)
      + 365 + (A - B + C)"
    by (simp add: algebra_simps)
  finally show ?thesis
    by (simp only: leap days_before_year_def)
qed

text \<open>The ordinal of the following day is the ordinal plus one, across months and years.\<close>

lemma toordinal_next_day:
  assumes "calendar_date t"
  shows "toordinal (next_day t) = toordinal t + 1"
proof -
  from assms have m: "1 \<le> month t" "month t \<le> 12"
    and d: "1 \<le> day t" "day t \<le> days_in_month (year t) (month t)"
    by (simp_all add: calendar_date_def)
  show ?thesis
  proof (cases "day t < days_in_month (year t) (month t)")
    case True
    then show ?thesis
      by (simp add: next_day_def toordinal_def)
  next
    case False
    then have dd: "day t = days_in_month (year t) (month t)"
      using d by simp
    show ?thesis
    proof (cases "month t < 12")
      case True
      then show ?thesis
        using False dd days_before_month_step[OF m(1) True, of "year t"]
        by (simp add: next_day_def toordinal_def)
    next
      case F2: False
      then have mm: "month t = 12"
        using m by simp
      have "days_before_month (year t) 12 = 334 + (if is_leap (year t) then 1 else 0)"
        by (simp add: days_before_month_def DAYS_BEFORE_MONTH_def)
      moreover have "days_in_month (year t) 12 = 31"
        by (simp add: days_in_month_def DAYS_IN_MONTH_def)
      moreover have "days_before_month (year t + 1) 1 = 0"
        by (simp add: days_before_month_def DAYS_BEFORE_MONTH_def)
      ultimately show ?thesis
        using False F2 mm dd days_before_year_step[of "year t"]
        by (simp add: next_day_def toordinal_def)
    qed
  qed
qed

lemma calendar_next_day:
  assumes "calendar_date t"
  shows "calendar_date (next_day t)"
proof -
  have january: "0 < days_in_month y 1" for y
    by (simp add: days_in_month_def DAYS_IN_MONTH_def)
  have following: "1 \<le> days_in_month y (m + 1)" if "1 \<le> m" "m < 12" for y m
  proof -
    from that have "m = 1 \<or> m = 2 \<or> m = 3 \<or> m = 4 \<or> m = 5 \<or> m = 6 \<or> m = 7 \<or> m = 8
      \<or> m = 9 \<or> m = 10 \<or> m = 11"
      by arith
    then show ?thesis
      by (elim disjE) (simp_all add: days_in_month_def DAYS_IN_MONTH_def)
  qed
  from assms show ?thesis
    using january[of "year t + 1"] following[of "month t" "year t"]
    by (auto simp: calendar_date_def next_day_def)
qed

lemma length_date_range: "length (date_range s n) = n"
  by (induction n arbitrary: s) simp_all

lemma nth_date_range: "i < n \<Longrightarrow> date_range s n ! i = (next_day ^^ i) s"
proof (induction n arbitrary: s i)
  case 0
  then show ?case by simp
next
  case (Suc n)
  then show ?case
    by (cases i) (simp_all add: funpow_swap1)
qed

lemma calendar_funpow_next_day:
  "calendar_date t \<Longrightarrow> calendar_date ((next_day ^^ i) t)"
  by (induction i) (simp_all add: calendar_next_day)

lemma toordinal_funpow_next_day:
  "calendar_date t \<Longrightarrow> toordinal ((next_day ^^ i) t) = toordinal t + int i"
  by (induction i) (simp_all add: toordinal_next_day calendar_funpow_next_day)

text \<open>The year never falls from one day to the next, and rises by at most one.\<close>

lemma year_next_day: "year t \<le> year (next_day t)" "year (next_day t) \<le> year t + 1"
  by (simp_all add: next_day_def)

lemma year_funpow_next_day_mono:
  "i \<le> j \<Longrightarrow> year ((next_day ^^ i) t) \<le> year ((next_day ^^ j) t)"
proof (induction j)
  case 0
  then show ?case by simp
next
  case (Suc j)
  show ?case
  proof (cases "i = Suc j")
    case True
    then show ?thesis by simp
  next
    case False
    then have "year ((next_day ^^ i) t) \<le> year ((next_day ^^ j) t)"
      using Suc by simp
    also have "\<dots> \<le> year ((next_day ^^ Suc j) t)"
      using year_next_day(1)[of "(next_day ^^ j) t"] by simp
    finally show ?thesis .
  qed
qed

lemma year_funpow_next_day_le: "year ((next_day ^^ i) t) \<le> year t + int i"
proof (induction i)
  case 0
  then show ?case by simp
next
  case (Suc i)
  then show ?case
    using year_next_day(2)[of "(next_day ^^ i) t"] by simp
qed

section \<open>Facts about the forecast\<close>

lemma date_max_eq_None: "date_max ts = None \<longleftrightarrow> ts = []"
  by (cases ts) simp_all

lemma fold_later_cases:
  "fold (\<lambda>a b. if toordinal b < toordinal a then a else b) ts t \<in> set (t # ts)"
  by (induction ts arbitrary: t) auto

lemma fold_later_upper:
  "toordinal t \<le> toordinal (fold (\<lambda>a b. if toordinal b < toordinal a then a else b) ts t)"
proof (induction ts arbitrary: t)
  case Nil
  then show ?case by simp
next
  case (Cons a ts)
  show ?case
    using Cons[of "if toordinal t < toordinal a then a else t"] by (simp split: if_splits)
qed

lemma fold_later_max:
  "x \<in> set ts \<Longrightarrow>
     toordinal x \<le> toordinal (fold (\<lambda>a b. if toordinal b < toordinal a then a else b) ts t)"
proof (induction ts arbitrary: t)
  case Nil
  then show ?case by simp
next
  case (Cons a ts)
  show ?case
  proof (cases "x = a")
    case True
    then show ?thesis
      using fold_later_upper[of "if toordinal t < toordinal a then a else t" ts]
      by (simp split: if_splits)
  next
    case False
    then show ?thesis
      using Cons by simp
  qed
qed

text \<open>The maximum is a date of the column, and no date of the column is later.\<close>

lemma date_max_in_set: "date_max ts = Some d \<Longrightarrow> d \<in> set ts"
  using fold_later_cases by (cases ts) auto

lemma date_max_latest: "date_max ts = Some d \<Longrightarrow> x \<in> set ts \<Longrightarrow> toordinal x \<le> toordinal d"
  using fold_later_upper fold_later_max by (cases ts) auto

lemma frame_of_columns:
  "map h (zip ts (zip (map f ts) (zip (map g ts) (map k ts))))
     = map (\<lambda>t. h (t, f t, g t, k t)) ts"
  by (induction ts) simp_all

text \<open>
  The forecast frame, row by row: no frame for an empty series, none when a date of the
  range is after 9999-12-31, and otherwise one row for each date of the range.
\<close>

lemma forecast_df_rows:
  "forecast_df ms df =
     (case date_max (map date df) of
        None \<Rightarrow> Inl ValueError
      | Some d \<Rightarrow>
          if list_ex (\<lambda>t. MAXYEAR < year t) (date_range (next_day d) horizon_days)
          then Inl DateOutOfRange
          else
            Inr (map (\<lambda>t. \<lparr>fdate = t,
                     forecast_usage =
                       real_of_int (toordinal t) * coef (usage_model ms) + intercept (usage_model ms),
                     forecast_price =
                       real_of_int (toordinal t) * coef (price_model ms) + intercept (price_model ms),
                     forecast_cost =
                       real_of_int (toordinal t) * coef (cost_model ms) + intercept (cost_model ms)\<rparr>)
                 (date_range (next_day d) horizon_days)))"
proof (cases "date_max (map date df)")
  case None
  then show ?thesis
    by (simp add: forecast_df_def future_dates_def)
next
  case (Some d)
  define fd where "fd = date_range (next_day d) horizon_days"
  have fut: "future_dates df = Inr fd"
    using Some by (simp add: future_dates_def fd_def)
  show ?thesis
  proof (cases "list_ex (\<lambda>t. MAXYEAR < year t) fd")
    case True
    then show ?thesis
      using Some fut by (simp add: forecast_df_def X_future_def fd_def[symmetric])
  next
    case False
    then have "X_future fd = Inr (map toordinal fd)"
      by (simp add: X_future_def)
    then show ?thesis
      using Some fut False
      by (simp add: forecast_df_def predict_def fd_def[symmetric] Let_def map_map comp_def
          frame_of_columns[of _ fd "\<lambda>t. real_of_int (toordinal t) * coef (usage_model ms)
            + intercept (usage_model ms)", unfolded map_map comp_def])
  qed
qed

text \<open>
  The range of \<open>n\<close> days after \<open>d\<close> holds a date after 9999-12-31 exactly when its last
  day is one.
\<close>

lemma date_range_in_bounds:
  assumes "year ((next_day ^^ n) d) \<le> MAXYEAR"
  shows "\<not> list_ex (\<lambda>t. MAXYEAR < year t) (date_range (next_day d) n)"
proof
  assume "list_ex (\<lambda>t. MAXYEAR < year t) (date_range (next_day d) n)"
  then obtain t where t: "t \<in> set (date_range (next_day d) n)" "MAXYEAR < year t"
    by (auto simp: list_ex_iff)
  then obtain i where i: "i < n" "t = date_range (next_day d) n ! i"
    by (auto simp: in_set_conv_nth length_date_range)
  then have "t = (next_day ^^ Suc i) d"
    by (simp add: nth_date_range funpow_swap1)
  then have "year t \<le> year ((next_day ^^ n) d)"
    using i(1) year_funpow_next_day_mono[of "Suc i" n d] by simp
  with assms t(2) show False
    by simp
qed

lemma date_range_out_of_bounds:
  assumes "0 < n" and "MAXYEAR < year ((next_day ^^ n) d)"
  shows "list_ex (\<lambda>t. MAXYEAR < year t) (date_range (next_day d) n)"
proof -
  from assms(1) obtain k where n: "n = Suc k"
    by (cases n) auto
  have "date_range (next_day d) n ! k = (next_day ^^ k) (next_day d)"
    by (rule nth_date_range) (simp add: n)
  also have "\<dots> = (next_day ^^ n) d"
    by (simp add: n funpow_swap1)
  finally have "date_range (next_day d) n ! k = (next_day ^^ n) d" .
  moreover have "date_range (next_day d) n ! k \<in> set (date_range (next_day d) n)"
    by (rule nth_mem) (simp add: n length_date_range)
  ultimately show ?thesis
    using assms(2) by (auto simp: list_ex_iff)
qed

lemma forecast_df_in_range:
  assumes "date_max (map date df) = Some d" and "year d + 90 \<le> MAXYEAR"
  shows "\<exists>rows. forecast_df ms df = Inr rows"
proof -
  have "year ((next_day ^^ horizon_days) d) \<le> MAXYEAR"
    using year_funpow_next_day_le[of horizon_days d] assms(2) by (simp add: horizon_days_def)
  then show ?thesis
    using assms(1) date_range_in_bounds[of horizon_days d] by (simp add: forecast_df_rows)
qed

text \<open>
  The three outcomes of the forecast. The number of periods is the constant of line 61 and
  no argument of the forecast.
\<close>

lemma forecast_df_outcomes:
  "(df = [] \<and> forecast_df ms df = Inl ValueError)
   \<or> (\<exists>d. date_max (map date df) = Some d \<and> MAXYEAR < year ((next_day ^^ horizon_days) d)
         \<and> forecast_df ms df = Inl DateOutOfRange)
   \<or> (\<exists>rows. forecast_df ms df = Inr rows \<and> length rows = horizon_days)"
proof (cases "date_max (map date df)")
  case None
  then show ?thesis
    by (simp add: forecast_df_rows date_max_eq_None)
next
  case (Some d)
  show ?thesis
  proof (cases "year ((next_day ^^ horizon_days) d) \<le> MAXYEAR")
    case True
    then show ?thesis
      using Some date_range_in_bounds[of horizon_days d]
      by (simp add: forecast_df_rows length_date_range)
  next
    case False
    then have "list_ex (\<lambda>t. MAXYEAR < year t) (date_range (next_day d) horizon_days)"
      by (intro date_range_out_of_bounds) (simp_all add: horizon_days_def)
    then show ?thesis
      using Some False by (simp add: forecast_df_rows)
  qed
qed

text \<open>The forecast reads the series only through its last date.\<close>

lemma forecast_df_last_date_only:
  "date_max (map date df1) = date_max (map date df2) \<Longrightarrow> forecast_df ms df1 = forecast_df ms df2"
  by (simp add: forecast_df_rows)

lemma hd_date_range: "0 < n \<Longrightarrow> hd (date_range s n) = s"
  by (cases n) simp_all

lemma date_max_series_feb:
  "date_max (map date series_feb) = Some \<lparr>year = 2024, month = 2, day = 28\<rparr>"
  by (simp add: series_feb_def toordinal_def days_before_year_def days_before_month_def
      DAYS_BEFORE_MONTH_def is_leap_def)

lemma toordinal_leap_day: "toordinal \<lparr>year = 2024, month = 2, day = 29\<rparr> = 738945"
  by (simp add: toordinal_def days_before_year_def days_before_month_def
      DAYS_BEFORE_MONTH_def is_leap_def)

lemma next_day_feb_28:
  "next_day \<lparr>year = 2024, month = 2, day = 28\<rparr> = \<lparr>year = 2024, month = 2, day = 29\<rparr>"
  by (simp add: next_day_def days_in_month_def is_leap_def)

lemma series_feb_in_range:
  "year ((next_day ^^ 90) \<lparr>year = 2024, month = 2, day = 28\<rparr>) \<le> MAXYEAR"
  using year_funpow_next_day_le[of 90 "\<lparr>year = 2024, month = 2, day = 28\<rparr>"]
  by (simp add: MAXYEAR_def)

lemma valid_date_feb_28: "valid_date \<lparr>year = 2024, month = 2, day = 28\<rparr>"
  by (simp add: valid_date_def calendar_date_def MAXYEAR_def days_in_month_def is_leap_def)

lemma date_max_series_last_day:
  "date_max (map date series_last_day) = Some \<lparr>year = 9999, month = 12, day = 31\<rparr>"
  by (simp add: series_last_day_def)

lemma valid_date_last_day: "valid_date \<lparr>year = 9999, month = 12, day = 31\<rparr>"
  by (simp add: valid_date_def calendar_date_def MAXYEAR_def days_in_month_def
      DAYS_IN_MONTH_def)

lemma next_day_last_day:
  "next_day \<lparr>year = 9999, month = 12, day = 31\<rparr> = \<lparr>year = 10000, month = 1, day = 1\<rparr>"
  by (simp add: next_day_def days_in_month_def DAYS_IN_MONTH_def)

section \<open>Claims about the forecast\<close>

text \<open>
  C3, as the code has it. Let \<open>d\<close> be the last date of the series. When the 90th day after
  \<open>d\<close> is no later than 9999-12-31, then for any three models the forecast frame has exactly
  90 rows; the date of the first row is the day after \<open>d\<close>; the date of every further row
  is the day after the date of the row before it; the ordinal of the date of row \<open>i\<close> is
  the ordinal of \<open>d\<close> plus \<open>i + 1\<close>; every date is a date a timestamp can hold; every date
  is strictly after \<open>d\<close>; and the dates are strictly ascending. When the 90th day after \<open>d\<close>
  is later than 9999-12-31, the forecast raises and there is no frame.
\<close>

theorem forecast_dates:
  assumes "date_max (map date df) = Some d" and "valid_date d"
  shows "if year ((next_day ^^ 90) d) \<le> MAXYEAR
     then \<exists>rows. forecast_df ms df = Inr rows \<and> length rows = 90
       \<and> fdate (rows ! 0) = next_day d
       \<and> (\<forall>i. Suc i < 90 \<longrightarrow> fdate (rows ! Suc i) = next_day (fdate (rows ! i)))
       \<and> (\<forall>i < 90. toordinal (fdate (rows ! i)) = toordinal d + 1 + int i)
       \<and> (\<forall>r \<in> set rows. valid_date (fdate r))
       \<and> (\<forall>r \<in> set rows. toordinal d < toordinal (fdate r))
       \<and> sorted_wrt (\<lambda>a b. toordinal (fdate a) < toordinal (fdate b)) rows
     else \<exists>e. forecast_df ms df = Inl e"
proof (cases "year ((next_day ^^ 90) d) \<le> MAXYEAR")
  case False
  then have "list_ex (\<lambda>t. MAXYEAR < year t) (date_range (next_day d) horizon_days)"
    by (intro date_range_out_of_bounds) (simp_all add: horizon_days_def)
  then show ?thesis
    using False assms(1) by (simp add: forecast_df_rows)
next
  case True
  from assms(2) have cal: "calendar_date d"
    by (simp add: valid_date_def)
  define F where "F = (\<lambda>t. \<lparr>fdate = t,
      forecast_usage =
        real_of_int (toordinal t) * coef (usage_model ms) + intercept (usage_model ms),
      forecast_price =
        real_of_int (toordinal t) * coef (price_model ms) + intercept (price_model ms),
      forecast_cost =
        real_of_int (toordinal t) * coef (cost_model ms) + intercept (cost_model ms)\<rparr>)"
  define rows where "rows = map F (date_range (next_day d) 90)"
  have res: "forecast_df ms df = Inr rows"
    using assms(1) True date_range_in_bounds[of 90 d]
    by (simp add: forecast_df_rows rows_def F_def horizon_days_def)
  have len: "length rows = 90"
    by (simp add: rows_def length_date_range)
  have nth: "fdate (rows ! i) = (next_day ^^ Suc i) d" if "i < 90" for i
    using that by (simp add: rows_def length_date_range nth_date_range F_def funpow_swap1)
  have first: "fdate (rows ! 0) = next_day d"
    using nth[of 0] by simp
  have step: "fdate (rows ! Suc i) = next_day (fdate (rows ! i))" if "Suc i < 90" for i
    using that nth[of i] nth[of "Suc i"] by simp
  have ord: "toordinal (fdate (rows ! i)) = toordinal d + 1 + int i" if "i < 90" for i
    using that nth[of i] toordinal_funpow_next_day[OF cal, of "Suc i"] by simp
  have valid: "valid_date (fdate r)" if "r \<in> set rows" for r
  proof -
    from that obtain i where i: "i < 90" "r = rows ! i"
      using len by (auto simp: in_set_conv_nth)
    have "calendar_date ((next_day ^^ Suc i) d)"
      using cal by (rule calendar_funpow_next_day)
    moreover have "year ((next_day ^^ Suc i) d) \<le> MAXYEAR"
      using year_funpow_next_day_mono[of "Suc i" 90 d] i(1) True by simp
    ultimately show ?thesis
      using i nth[of i] by (simp add: valid_date_def)
  qed
  have after: "toordinal d < toordinal (fdate r)" if "r \<in> set rows" for r
  proof -
    from that obtain i where "i < length rows" "r = rows ! i"
      by (auto simp: in_set_conv_nth)
    then show ?thesis
      using ord[of i] len by simp
  qed
  have ascending: "sorted_wrt (\<lambda>a b. toordinal (fdate a) < toordinal (fdate b)) rows"
    unfolding sorted_wrt_iff_nth_less
  proof (intro allI impI)
    fix i j
    assume "i < j" "j < length rows"
    then show "toordinal (fdate (rows ! i)) < toordinal (fdate (rows ! j))"
      using ord[of i] ord[of j] len by simp
  qed
  from res len first step ord valid after ascending
  have "\<exists>rows. forecast_df ms df = Inr rows \<and> length rows = 90
       \<and> fdate (rows ! 0) = next_day d
       \<and> (\<forall>i. Suc i < 90 \<longrightarrow> fdate (rows ! Suc i) = next_day (fdate (rows ! i)))
       \<and> (\<forall>i < 90. toordinal (fdate (rows ! i)) = toordinal d + 1 + int i)
       \<and> (\<forall>r \<in> set rows. valid_date (fdate r))
       \<and> (\<forall>r \<in> set rows. toordinal d < toordinal (fdate r))
       \<and> sorted_wrt (\<lambda>a b. toordinal (fdate a) < toordinal (fdate b)) rows"
    by blast
  with True show ?thesis
    by simp
qed

theorem forecast_dates_witness:
  "date_max (map date series_feb) = Some \<lparr>year = 2024, month = 2, day = 28\<rparr>
   \<and> valid_date \<lparr>year = 2024, month = 2, day = 28\<rparr>
   \<and> year ((next_day ^^ 90) \<lparr>year = 2024, month = 2, day = 28\<rparr>) \<le> MAXYEAR
   \<and> (\<exists>rows. forecast_df models_falling series_feb = Inr rows \<and> length rows = 90
     \<and> fdate (rows ! 0) = next_day \<lparr>year = 2024, month = 2, day = 28\<rparr>
     \<and> (\<forall>i. Suc i < 90 \<longrightarrow> fdate (rows ! Suc i) = next_day (fdate (rows ! i)))
     \<and> (\<forall>i < 90. toordinal (fdate (rows ! i))
           = toordinal \<lparr>year = 2024, month = 2, day = 28\<rparr> + 1 + int i)
     \<and> (\<forall>r \<in> set rows. valid_date (fdate r))
     \<and> (\<forall>r \<in> set rows.
           toordinal \<lparr>year = 2024, month = 2, day = 28\<rparr> < toordinal (fdate r))
     \<and> sorted_wrt (\<lambda>a b. toordinal (fdate a) < toordinal (fdate b)) rows)"
proof -
  note last = date_max_series_feb
  note valid = valid_date_feb_28
  note inside = series_feb_in_range
  from forecast_dates[OF last valid, of models_falling] inside
  have "\<exists>rows. forecast_df models_falling series_feb = Inr rows \<and> length rows = 90
     \<and> fdate (rows ! 0) = next_day \<lparr>year = 2024, month = 2, day = 28\<rparr>
     \<and> (\<forall>i. Suc i < 90 \<longrightarrow> fdate (rows ! Suc i) = next_day (fdate (rows ! i)))
     \<and> (\<forall>i < 90. toordinal (fdate (rows ! i))
           = toordinal \<lparr>year = 2024, month = 2, day = 28\<rparr> + 1 + int i)
     \<and> (\<forall>r \<in> set rows. valid_date (fdate r))
     \<and> (\<forall>r \<in> set rows.
           toordinal \<lparr>year = 2024, month = 2, day = 28\<rparr> < toordinal (fdate r))
     \<and> sorted_wrt (\<lambda>a b. toordinal (fdate a) < toordinal (fdate b)) rows"
    by (simp only: if_True)
  with last valid inside show ?thesis
    by (intro conjI)
qed

text \<open>
  C3 as stated fails. The last date of the series is 9999-12-31, a date a timestamp can
  hold. The day after it is not, and the forecast raises instead of returning 90 rows.
\<close>

theorem forecast_dates_counterexample:
  "date_max (map date series_last_day) = Some \<lparr>year = 9999, month = 12, day = 31\<rparr>
   \<and> valid_date \<lparr>year = 9999, month = 12, day = 31\<rparr>
   \<and> isl (forecast_df models_falling series_last_day)"
proof -
  have "year (next_day \<lparr>year = 9999, month = 12, day = 31\<rparr>) = 10000"
    by (simp add: next_day_last_day)
  then have "MAXYEAR < year ((next_day ^^ horizon_days) \<lparr>year = 9999, month = 12, day = 31\<rparr>)"
    using year_funpow_next_day_mono[of 1 horizon_days "\<lparr>year = 9999, month = 12, day = 31\<rparr>"]
    by (simp add: MAXYEAR_def horizon_days_def)
  then have "list_ex (\<lambda>t. MAXYEAR < year t)
      (date_range (next_day \<lparr>year = 9999, month = 12, day = 31\<rparr>) horizon_days)"
    by (intro date_range_out_of_bounds) (simp_all add: horizon_days_def)
  then have "isl (forecast_df models_falling series_last_day)"
    by (simp add: forecast_df_rows date_max_series_last_day)
  with date_max_series_last_day valid_date_last_day show ?thesis
    by (intro conjI)
qed

text \<open>
  C4. For a series with last date \<open>d\<close> whose 90 forecast days are dates a timestamp can
  hold, the forecast frame exists, and in every row each forecast value is the model's slope
  times the ordinal of the row's date plus the model's intercept. The value is not clamped:
  the equation holds whatever its sign. For any other series there is no frame and so no
  forecast value.
\<close>

theorem forecast_values:
  assumes "date_max (map date df) = Some d" and "year ((next_day ^^ 90) d) \<le> MAXYEAR"
  shows "\<exists>rows. forecast_df ms df = Inr rows
     \<and> (\<forall>r \<in> set rows.
          forecast_usage r
            = coef (usage_model ms) * real_of_int (toordinal (fdate r)) + intercept (usage_model ms)
        \<and> forecast_price r
            = coef (price_model ms) * real_of_int (toordinal (fdate r)) + intercept (price_model ms)
        \<and> forecast_cost r
            = coef (cost_model ms) * real_of_int (toordinal (fdate r)) + intercept (cost_model ms))"
  using assms date_range_in_bounds[of 90 d]
  by (auto simp: forecast_df_rows horizon_days_def mult.commute)

text \<open>
  At the falling model the first forecast value is the negated ordinal of 2024-02-29, the
  negative number -738945.
\<close>

theorem forecast_values_witness:
  "date_max (map date series_feb) = Some \<lparr>year = 2024, month = 2, day = 28\<rparr>
   \<and> year ((next_day ^^ 90) \<lparr>year = 2024, month = 2, day = 28\<rparr>) \<le> MAXYEAR
   \<and> (\<exists>rows. forecast_df models_falling series_feb = Inr rows
     \<and> forecast_usage (hd rows) = - 738945
     \<and> (\<forall>r \<in> set rows.
          forecast_usage r
            = coef (usage_model models_falling) * real_of_int (toordinal (fdate r))
              + intercept (usage_model models_falling)
        \<and> forecast_price r
            = coef (price_model models_falling) * real_of_int (toordinal (fdate r))
              + intercept (price_model models_falling)
        \<and> forecast_cost r
            = coef (cost_model models_falling) * real_of_int (toordinal (fdate r))
              + intercept (cost_model models_falling)))"
proof -
  note last = date_max_series_feb
  note inside = series_feb_in_range
  from forecast_values[OF last inside, of models_falling] obtain rows where
    rows: "forecast_df models_falling series_feb = Inr rows"
    and vals: "\<forall>r \<in> set rows.
          forecast_usage r
            = coef (usage_model models_falling) * real_of_int (toordinal (fdate r))
              + intercept (usage_model models_falling)
        \<and> forecast_price r
            = coef (price_model models_falling) * real_of_int (toordinal (fdate r))
              + intercept (price_model models_falling)
        \<and> forecast_cost r
            = coef (cost_model models_falling) * real_of_int (toordinal (fdate r))
              + intercept (cost_model models_falling)"
    by blast
  define dr where "dr = date_range \<lparr>year = 2024, month = 2, day = 29\<rparr> horizon_days"
  have "length dr = 90"
    by (simp add: dr_def length_date_range horizon_days_def)
  then have nonempty: "dr \<noteq> []"
    by auto
  have first: "hd dr = \<lparr>year = 2024, month = 2, day = 29\<rparr>"
    by (simp add: dr_def hd_date_range horizon_days_def)
  have bounds: "\<not> list_ex (\<lambda>t. MAXYEAR < year t) dr"
    using date_range_in_bounds[OF inside] by (simp add: dr_def next_day_feb_28 horizon_days_def)
  have "forecast_usage (hd rows) = - 738945"
    using rows nonempty bounds
    by (auto simp: forecast_df_rows date_max_series_feb next_day_feb_28 dr_def[symmetric]
        hd_map first toordinal_leap_day models_falling_def)
  with last inside rows vals show ?thesis
    by blast
qed

section \<open>Facts about training and the model files\<close>

lemma fit_nonempty:
  "X \<noteq> [] \<Longrightarrow> length X = length y \<Longrightarrow> \<exists>m. fit X y = Inr m"
  by (simp add: fit_def Let_def)

lemma paths_distinct:
  "usage_model_pkl \<noteq> price_model_pkl" "usage_model_pkl \<noteq> cost_model_pkl"
  "price_model_pkl \<noteq> cost_model_pkl"
  by (simp_all add: usage_model_pkl_def price_model_pkl_def cost_model_pkl_def)

text \<open>Training on a non-empty frame fits three models on its columns and writes all three.\<close>

lemma train_and_save_models_nonempty:
  assumes "df \<noteq> []"
  shows "\<exists>um pm cm.
      fit (map (\<lambda>r. toordinal (date r)) df) (map usage_kwh df) = Inr um
    \<and> fit (map (\<lambda>r. toordinal (date r)) df) (map price_per_kwh df) = Inr pm
    \<and> fit (map (\<lambda>r. toordinal (date r)) df) (map daily_cost df) = Inr cm
    \<and> train_and_save_models df w =
        Inr (w\<lparr>files := (files w)
                 (usage_model_pkl \<mapsto> Pickle um,
                  price_model_pkl \<mapsto> Pickle pm,
                  cost_model_pkl \<mapsto> Pickle cm),
               trainings := Suc (trainings w)\<rparr>)"
proof -
  let ?X = "map (\<lambda>r. toordinal (date r)) df"
  have X: "?X \<noteq> []"
    using assms by simp
  obtain um where um: "fit ?X (map usage_kwh df) = Inr um"
    using fit_nonempty[OF X, of "map usage_kwh df"] by auto
  obtain pm where pm: "fit ?X (map price_per_kwh df) = Inr pm"
    using fit_nonempty[OF X, of "map price_per_kwh df"] by auto
  obtain cm where cm: "fit ?X (map daily_cost df) = Inr cm"
    using fit_nonempty[OF X, of "map daily_cost df"] by auto
  have "train_and_save_models df w =
        Inr (w\<lparr>files := (files w)
                 (usage_model_pkl \<mapsto> Pickle um,
                  price_model_pkl \<mapsto> Pickle pm,
                  cost_model_pkl \<mapsto> Pickle cm),
               trainings := Suc (trainings w)\<rparr>)"
    by (simp add: train_and_save_models_def Let_def um pm cm)
  with um pm cm show ?thesis
    by blast
qed


lemma models_present_written:
  "models_present
     (w\<lparr>files := (files w)
          (usage_model_pkl \<mapsto> a, price_model_pkl \<mapsto> b, cost_model_pkl \<mapsto> c),
        trainings := n\<rparr>)"
  by (simp add: models_present_def path_exists_def)

lemma load_models_written:
  "load_models
     (w\<lparr>files := (files w)
          (usage_model_pkl \<mapsto> Pickle um, price_model_pkl \<mapsto> Pickle pm,
           cost_model_pkl \<mapsto> Pickle cm),
        trainings := n\<rparr>)
   = Inr \<lparr>usage_model = um, price_model = pm, cost_model = cm\<rparr>"
  using paths_distinct by (simp add: load_models_def pickle_load_def)

lemma train_if_missing_present: "models_present w \<Longrightarrow> train_if_missing df w = Inr w"
  by (simp add: train_if_missing_def)

lemma train_if_missing_absent:
  "\<not> models_present w \<Longrightarrow> train_if_missing df w = train_and_save_models df w"
  by (simp add: train_if_missing_def)

lemma not_increasing_nonempty: "\<not> spec_dates_strictly_increasing df \<Longrightarrow> df \<noteq> []"
  by (auto simp: spec_dates_strictly_increasing_def)

lemma train_series_one: "train_and_save_models series_one no_files = Inr trained_once"
  by (simp add: train_and_save_models_def series_one_def no_files_def trained_once_def
      models_one_def fit_def mean_def Let_def)

lemma models_present_trained_once: "models_present trained_once"
  by (simp add: models_present_def path_exists_def trained_once_def)

lemma load_models_trained_once: "load_models trained_once = Inr models_one"
  using paths_distinct
  by (simp add: load_models_def pickle_load_def trained_once_def models_one_def)

lemma not_models_present_no_files: "\<not> models_present no_files"
  by (simp add: models_present_def path_exists_def no_files_def)

lemma monthly_usage_cost_unbound: "monthly_usage_cost usage None = Inl NameError"
  by (simp add: monthly_usage_cost_def)

text \<open>The train-or-skip step on a non-empty frame, when a model file is missing.\<close>

lemma train_if_missing_trains:
  assumes "df \<noteq> []" and "\<not> models_present w"
  shows "\<exists>w' ms. train_if_missing df w = Inr w' \<and> models_present w'
     \<and> trainings w' = Suc (trainings w) \<and> load_models w' = Inr ms
     \<and> fst (dashboard df w) = w'"
proof -
  from train_and_save_models_nonempty[OF assms(1), of w] obtain um pm cm where
    t: "train_and_save_models df w =
        Inr (w\<lparr>files := (files w)
                 (usage_model_pkl \<mapsto> Pickle um,
                  price_model_pkl \<mapsto> Pickle pm,
                  cost_model_pkl \<mapsto> Pickle cm),
               trainings := Suc (trainings w)\<rparr>)"
    by blast
  define w' where "w' = w\<lparr>files := (files w)
                 (usage_model_pkl \<mapsto> Pickle um,
                  price_model_pkl \<mapsto> Pickle pm,
                  cost_model_pkl \<mapsto> Pickle cm),
               trainings := Suc (trainings w)\<rparr>"
  have step: "train_if_missing df w = Inr w'"
    using assms(2) t by (simp add: train_if_missing_absent w'_def)
  have present: "models_present w'"
    unfolding w'_def by (rule models_present_written)
  have load: "load_models w' = Inr \<lparr>usage_model = um, price_model = pm, cost_model = cm\<rparr>"
    unfolding w'_def by (rule load_models_written)
  have "fst (dashboard df w) = w'"
    by (simp add: dashboard_def step)
  moreover have "trainings w' = Suc (trainings w)"
    by (simp add: w'_def)
  ultimately show ?thesis
    using step present load by blast
qed

text \<open>
  The whole script on a frame whose forecast days are dates a timestamp can hold, when a
  model file is missing.
\<close>

lemma dashboard_trains:
  assumes "date_max (map date df) = Some d" and "year d + 90 \<le> MAXYEAR"
    and "\<not> models_present w"
  shows "\<exists>w'. dashboard df w = (w', Inl NameError) \<and> train_if_missing df w = Inr w'
     \<and> models_present w' \<and> trainings w' = Suc (trainings w)"
proof -
  have ne: "df \<noteq> []"
    using assms(1) by auto
  from train_if_missing_trains[OF ne assms(3)] obtain w' ms where
    step: "train_if_missing df w = Inr w'" and present: "models_present w'"
    and count: "trainings w' = Suc (trainings w)" and load: "load_models w' = Inr ms"
    by blast
  obtain rows where rows: "forecast_df ms df = Inr rows"
    using forecast_df_in_range[OF assms(1,2)] by blast
  have "dashboard df w = (w', Inl NameError)"
    by (simp add: dashboard_def step load rows monthly_usage_cost_unbound)
  then show ?thesis
    using step present count by blast
qed

text \<open>No run of the script completes: every run ends in an exception.\<close>

lemma dashboard_never_completes: "isl (snd (dashboard df w))"
  by (simp add: dashboard_def monthly_usage_cost_unbound split: sum.splits)

section \<open>Claims about training and the model files\<close>



text \<open>
  C1, as the code has it. The script computes no fingerprint of the series. When the three
  model files exist, the train-or-skip step leaves the directory as it is, whatever the
  series holds, and the models obtained are the ones obtained for any other series: a
  changed value is not detected and nothing is retrained.
\<close>

theorem data_change_not_detected:
  assumes "models_present w"
  shows "train_if_missing df' w = Inr w \<and> get_or_train df' w = get_or_train df w"
  using assms by (simp add: get_or_train_def train_if_missing_present)

theorem data_change_not_detected_witness:
  "models_present trained_once
   \<and> train_if_missing series_one_edited trained_once = Inr trained_once
   \<and> get_or_train series_one_edited trained_once = get_or_train series_one trained_once"
  using models_present_trained_once
    data_change_not_detected[OF models_present_trained_once, of series_one_edited series_one]
  by (intro conjI) simp_all

text \<open>
  C1 as stated fails. Training on the one-day series leaves the directory \<open>trained_once\<close>.
  The usage value of that day is then changed from 10 to 11. The next call trains nothing
  and returns the models fitted on the old value, although training on the changed series
  would have given another directory.
\<close>

theorem data_change_counterexample:
  "train_if_missing series_one no_files = Inr trained_once
   \<and> series_one_edited \<noteq> series_one
   \<and> get_or_train series_one_edited trained_once = Inr (models_one, trained_once)
   \<and> train_and_save_models series_one_edited no_files \<noteq> Inr trained_once"
proof -
  have a: "train_if_missing series_one no_files = Inr trained_once"
    using not_models_present_no_files by (simp add: train_if_missing_absent train_series_one)
  have b: "series_one_edited \<noteq> series_one"
    by (simp add: series_one_edited_def series_one_def)
  have c: "get_or_train series_one_edited trained_once = Inr (models_one, trained_once)"
    by (simp add: get_or_train_def train_if_missing_present models_present_trained_once
        load_models_trained_once)
  have "train_and_save_models series_one_edited no_files
      = Inr (no_files\<lparr>files := (files no_files)
                 (usage_model_pkl \<mapsto> Pickle \<lparr>coef = 0, intercept = 11\<rparr>,
                  price_model_pkl \<mapsto> Pickle \<lparr>coef = 0, intercept = 1 / 5\<rparr>,
                  cost_model_pkl \<mapsto> Pickle \<lparr>coef = 0, intercept = 2\<rparr>),
               trainings := Suc (trainings no_files)\<rparr>)"
    by (simp add: train_and_save_models_def series_one_edited_def fit_def mean_def Let_def)
  moreover have "pickle_load (no_files\<lparr>files := (files no_files)
                 (usage_model_pkl \<mapsto> Pickle \<lparr>coef = 0, intercept = 11\<rparr>,
                  price_model_pkl \<mapsto> Pickle \<lparr>coef = 0, intercept = 1 / 5\<rparr>,
                  cost_model_pkl \<mapsto> Pickle \<lparr>coef = 0, intercept = 2\<rparr>),
               trainings := Suc (trainings no_files)\<rparr>) usage_model_pkl
      \<noteq> pickle_load trained_once usage_model_pkl"
    using paths_distinct by (simp add: pickle_load_def trained_once_def models_one_def)
  ultimately have d: "train_and_save_models series_one_edited no_files \<noteq> Inr trained_once"
    by auto
  from a b c d show ?thesis
    by (intro conjI)
qed

text \<open>
  C6, as the code has it. For a non-empty series, either the first call returns models and a
  directory, and then the second call with the same series returns the same models and the
  same directory, and training has run once if a file was missing before the first call and
  not at all if none was; or all three files existed and one does not unpickle, and then the
  call fails as the load does, with nothing trained. The models hold a slope and an
  intercept and no fingerprint.
\<close>

theorem get_or_train_twice:
  assumes "df \<noteq> []"
  shows "(\<exists>ms w1. get_or_train df w = Inr (ms, w1) \<and> get_or_train df w1 = Inr (ms, w1)
            \<and> trainings w1 = trainings w + (if models_present w then 0 else 1))
     \<or> (models_present w \<and> (\<exists>e. load_models w = Inl e \<and> get_or_train df w = Inl e))"
proof (cases "models_present w")
  case True
  show ?thesis
  proof (cases "load_models w")
    case (Inl e)
    then show ?thesis
      using True by (simp add: get_or_train_def train_if_missing_present)
  next
    case (Inr ms)
    then have "get_or_train df w = Inr (ms, w)"
      using True by (simp add: get_or_train_def train_if_missing_present)
    then show ?thesis
      using True by simp
  qed
next
  case False
  from train_if_missing_trains[OF assms False] obtain w1 ms where
    step: "train_if_missing df w = Inr w1" and present: "models_present w1"
    and count: "trainings w1 = Suc (trainings w)" and load: "load_models w1 = Inr ms"
    by blast
  have first: "get_or_train df w = Inr (ms, w1)"
    by (simp add: get_or_train_def step load)
  have second: "get_or_train df w1 = Inr (ms, w1)"
    by (simp add: get_or_train_def train_if_missing_present present load)
  from first second count False show ?thesis
    by simp
qed

theorem get_or_train_twice_witness:
  "series_feb \<noteq> []
   \<and> (\<exists>ms w1. get_or_train series_feb no_files = Inr (ms, w1)
        \<and> get_or_train series_feb w1 = Inr (ms, w1) \<and> trainings w1 = 1)"
proof -
  have ne: "series_feb \<noteq> []"
    by (simp add: series_feb_def)
  from get_or_train_twice[OF ne, of no_files] not_models_present_no_files ne show ?thesis
    by (simp add: no_files_def)
qed

text \<open>
  C6 as stated fails. The February series has two distinct dates. In the directory
  \<open>trained_once\<close> all three files exist. The call returns the directory it was given, so a
  second call is the same call again, and across both the counter of trainings stays where
  it was: training runs not once but never.
\<close>

theorem get_or_train_counterexample:
  "distinct (map date series_feb) \<and> length series_feb = 2
   \<and> get_or_train series_feb trained_once = Inr (models_one, trained_once)
   \<and> trainings (snd (projr (get_or_train series_feb trained_once))) = trainings trained_once"
  by (simp add: get_or_train_def train_if_missing_present models_present_trained_once
      load_models_trained_once) (simp add: series_feb_def)

text \<open>
  C7, as the code has it. The script does not validate the series. For a series whose dates
  are not strictly increasing, the train-or-skip step raises nothing and leaves all three
  model files in place: it trains on that series and writes the files when one was missing,
  and otherwise leaves the directory as it was. This is the directory the run ends with.
\<close>

theorem invalid_series_trained_on:
  assumes "\<not> spec_dates_strictly_increasing df"
  shows "\<exists>w'. train_if_missing df w = Inr w' \<and> fst (dashboard df w) = w'
     \<and> models_present w'
     \<and> trainings w' = trainings w + (if models_present w then 0 else 1)
     \<and> (models_present w \<longrightarrow> w' = w)"
proof (cases "models_present w")
  case True
  then show ?thesis
    by (simp add: dashboard_def train_if_missing_present)
next
  case False
  from train_if_missing_trains[OF not_increasing_nonempty[OF assms] False] False
  show ?thesis
    by auto
qed

theorem invalid_series_trained_on_witness:
  "\<not> spec_dates_strictly_increasing series_duplicate
   \<and> (\<exists>w'. train_if_missing series_duplicate no_files = Inr w'
        \<and> fst (dashboard series_duplicate no_files) = w'
        \<and> models_present w' \<and> trainings w' = 1)"
proof -
  have bad: "\<not> spec_dates_strictly_increasing series_duplicate"
    by (simp add: spec_dates_strictly_increasing_def series_duplicate_def)
  from invalid_series_trained_on[OF bad, of no_files] not_models_present_no_files bad
  show ?thesis
    by (simp add: no_files_def)
qed

text \<open>
  C7 as stated fails. The series with the date 2024-01-15 twice breaks the invariant. Run
  on it with no model files, the script trains once and writes all three files, and the
  exception that ends the run is the \<^verbatim>\<open>NameError\<close> of line 110, raised after the training
  and the forecast.
\<close>

theorem invalid_series_counterexample:
  "\<not> spec_dates_strictly_increasing series_duplicate
   \<and> models_present (fst (dashboard series_duplicate no_files))
   \<and> trainings (fst (dashboard series_duplicate no_files)) = 1
   \<and> snd (dashboard series_duplicate no_files) = Inl NameError"
proof -
  have bad: "\<not> spec_dates_strictly_increasing series_duplicate"
    by (simp add: spec_dates_strictly_increasing_def series_duplicate_def)
  have last: "date_max (map date series_duplicate)
      = Some \<lparr>year = 2024, month = 1, day = 15\<rparr>"
    by (simp add: series_duplicate_def)
  have inside: "year \<lparr>year = 2024, month = 1, day = 15\<rparr> + 90 \<le> MAXYEAR"
    by (simp add: MAXYEAR_def)
  from dashboard_trains[OF last inside not_models_present_no_files] bad show ?thesis
    by (auto simp: no_files_def)
qed

section \<open>Facts about the seasonality\<close>

lemma distinct_months_order: "distinct months_order"
  by (simp add: months_order_def)

lemma length_months_order: "length months_order = 12"
  by (simp add: months_order_def)

text \<open>Two timestamps have the same month name exactly when they have the same month.\<close>

lemma strftime_B_eq_iff:
  assumes "1 \<le> month t" "month t \<le> 12" "1 \<le> m" "m \<le> 12"
  shows "strftime_B t = months_order ! (m - 1) \<longleftrightarrow> month t = m"
proof -
  have "months_order ! (month t - 1) = months_order ! (m - 1) \<longleftrightarrow> month t - 1 = m - 1"
    using assms by (intro nth_eq_iff_index_eq[OF distinct_months_order])
      (simp_all add: length_months_order)
  then show ?thesis
    using assms by (auto simp: strftime_B_def)
qed

lemma groupby_mean_column:
  "groupby_mean (map (\<lambda>r. (key r, val r)) df) k =
     (if filter (\<lambda>r. key r = k) df = [] then None
      else Some (mean (map val (filter (\<lambda>r. key r = k) df))))"
proof -
  have "map snd (filter (\<lambda>kv. fst kv = k) (map (\<lambda>r. (key r, val r)) df))
      = map val (filter (\<lambda>r. key r = k) df)"
    by (induction df) simp_all
  then show ?thesis
    by (simp add: groupby_mean_def Let_def)
qed

lemma filter_month_name:
  assumes "\<forall>r \<in> set df. 1 \<le> month (date r) \<and> month (date r) \<le> 12" and "1 \<le> m" "m \<le> 12"
  shows "filter (\<lambda>r. strftime_B (date r) = months_order ! (m - 1)) df
     = filter (\<lambda>r. month (date r) = m) df"
proof (rule filter_cong[OF refl])
  fix r
  assume "r \<in> set df"
  then have "1 \<le> month (date r)" "month (date r) \<le> 12"
    using assms(1) by auto
  then show "(strftime_B (date r) = months_order ! (m - 1)) = (month (date r) = m)"
    using assms(2,3) by (rule strftime_B_eq_iff)
qed

text \<open>
  Lines 91-99: \<^verbatim>\<open>monthly_usage\<close> has the twelve month names as its labels, in the order of
  \<^verbatim>\<open>months_order\<close>, and the entry of month \<open>m\<close> is the mean of \<^verbatim>\<open>usage_kwh\<close> over the rows
  of that month, of whatever year, or \<open>None\<close> when there is no such row.
\<close>

lemma monthly_usage_labels: "map fst (monthly_usage df) = months_order"
  by (simp add: monthly_usage_def reindex_def comp_def)

lemma monthly_usage_entry:
  assumes "\<forall>r \<in> set df. 1 \<le> month (date r) \<and> month (date r) \<le> 12" and "1 \<le> m" "m \<le> 12"
  shows "monthly_usage df ! (m - 1) =
     (months_order ! (m - 1),
      if filter (\<lambda>r. month (date r) = m) df = [] then None
      else Some (mean (map usage_kwh (filter (\<lambda>r. month (date r) = m) df))))"
proof -
  have "m - 1 < length months_order"
    using assms(2,3) by (simp add: length_months_order)
  then have "monthly_usage df ! (m - 1) =
      (months_order ! (m - 1),
       groupby_mean (map (\<lambda>r. (strftime_B (date r), usage_kwh r)) df) (months_order ! (m - 1)))"
    by (simp add: monthly_usage_def reindex_def)
  then show ?thesis
    unfolding groupby_mean_column filter_month_name[OF assms] .
qed

text \<open>Lines 164-165: the same for \<^verbatim>\<open>monthly_cost\<close> and \<^verbatim>\<open>daily_cost\<close>.\<close>

lemma monthly_cost_labels: "map fst (monthly_cost df) = months_order"
  by (simp add: monthly_cost_def reindex_def comp_def)

lemma monthly_cost_entry:
  assumes "\<forall>r \<in> set df. 1 \<le> month (date r) \<and> month (date r) \<le> 12" and "1 \<le> m" "m \<le> 12"
  shows "monthly_cost df ! (m - 1) =
     (months_order ! (m - 1),
      if filter (\<lambda>r. month (date r) = m) df = [] then None
      else Some (mean (map daily_cost (filter (\<lambda>r. month (date r) = m) df))))"
proof -
  have "m - 1 < length months_order"
    using assms(2,3) by (simp add: length_months_order)
  then have "monthly_cost df ! (m - 1) =
      (months_order ! (m - 1),
       groupby_mean (map (\<lambda>r. (strftime_B (date r), daily_cost r)) df) (months_order ! (m - 1)))"
    by (simp add: monthly_cost_def reindex_def)
  then show ?thesis
    unfolding groupby_mean_column filter_month_name[OF assms] .
qed

text \<open>
  Had \<^verbatim>\<open>monthly_cost\<close> been assigned before line 108, the frame of lines 108-111 would have
  had the twelve month names as its index and the two series as its columns.
\<close>

lemma map_of_reindex:
  "k \<in> set labels \<Longrightarrow> map_of (reindex s labels) k = Some (s k)"
  by (induction labels) (auto simp: reindex_def)

lemma monthly_usage_cost_bound:
  "monthly_usage_cost (monthly_usage df) (Some (monthly_cost df)) =
     Inr (map (\<lambda>k. (k, groupby_mean (map (\<lambda>r. (strftime_B (date r), usage_kwh r)) df) k,
                       groupby_mean (map (\<lambda>r. (strftime_B (date r), daily_cost r)) df) k))
            months_order)"
  by (simp add: monthly_usage_cost_def monthly_usage_def monthly_cost_def map_of_reindex)

text \<open>The script on a non-empty frame when all three files exist and unpickle.\<close>

lemma dashboard_loads:
  assumes "date_max (map date df) = Some d" and "year d + 90 \<le> MAXYEAR"
    and "models_present w" and "load_models w = Inr ms"
  shows "dashboard df w = (w, Inl NameError)"
proof -
  obtain rows where "forecast_df ms df = Inr rows"
    using forecast_df_in_range[OF assms(1,2)] by blast
  then show ?thesis
    using assms(3,4)
    by (simp add: dashboard_def train_if_missing_present monthly_usage_cost_unbound)
qed

lemma date_max_series_seasons:
  "date_max (map date series_seasons) = Some \<lparr>year = 2024, month = 7, day = 4\<rparr>"
  by (simp add: series_seasons_def toordinal_def days_before_year_def days_before_month_def
      DAYS_BEFORE_MONTH_def is_leap_def)

lemma series_seasons_in_range: "year \<lparr>year = 2024, month = 7, day = 4\<rparr> + 90 \<le> MAXYEAR"
  by (simp add: MAXYEAR_def)

lemma monthly_usage_series_seasons:
  "monthly_usage series_seasons =
     [(''January'', Some 15), (''February'', None), (''March'', None), (''April'', None),
      (''May'', None), (''June'', None), (''July'', Some 30), (''August'', None),
      (''September'', None), (''October'', None), (''November'', None), (''December'', None)]"
  by (simp add: monthly_usage_def reindex_def groupby_mean_def strftime_B_def
      series_seasons_def months_order_def mean_def)

lemma monthly_cost_series_seasons:
  "monthly_cost series_seasons =
     [(''January'', Some 3), (''February'', None), (''March'', None), (''April'', None),
      (''May'', None), (''June'', None), (''July'', Some 9), (''August'', None),
      (''September'', None), (''October'', None), (''November'', None), (''December'', None)]"
  by (simp add: monthly_cost_def reindex_def groupby_mean_def strftime_B_def
      series_seasons_def months_order_def mean_def)

section \<open>Claims about the seasonality\<close>

text \<open>
  C2, at a failing input. On the series of two January days and one July day,
  \<^verbatim>\<open>monthly_usage\<close> holds the mean 15 of the two January usages, and the expression of line
  164 would give the mean 3 of the two January costs. The run does not get there: started
  with no model files it ends at line 110 with \<^verbatim>\<open>NameError\<close>, the name \<^verbatim>\<open>monthly_cost\<close>
  being read before its assignment, and no mean cost is reported.
\<close>

theorem seasonality_means_not_reported:
  "monthly_usage series_seasons ! 0 = (''January'', Some 15)
   \<and> monthly_cost series_seasons ! 0 = (''January'', Some 3)
   \<and> snd (dashboard series_seasons no_files) = Inl NameError"
proof -
  from dashboard_trains[OF date_max_series_seasons series_seasons_in_range
      not_models_present_no_files]
  have "snd (dashboard series_seasons no_files) = Inl NameError"
    by auto
  then show ?thesis
    by (simp add: monthly_usage_series_seasons monthly_cost_series_seasons)
qed

text \<open>
  C5, at a failing input. On the same series, which covers two calendar months,
  \<^verbatim>\<open>monthly_usage\<close> has the twelve month names in order and \<open>None\<close> for each of the ten
  months without rows. The frame with both means is never built: started with the three
  model files in place, the run ends at line 110 with \<^verbatim>\<open>NameError\<close>.
\<close>

theorem seasonality_frame_raises:
  "map fst (monthly_usage series_seasons) = months_order
   \<and> map snd (monthly_usage series_seasons)
       = [Some 15, None, None, None, None, None, Some 30, None, None, None, None, None]
   \<and> snd (dashboard series_seasons trained_once) = Inl NameError"
proof -
  have "snd (dashboard series_seasons trained_once) = Inl NameError"
    using dashboard_loads[OF date_max_series_seasons series_seasons_in_range
      models_present_trained_once load_models_trained_once]
    by simp
  then show ?thesis
    by (simp add: monthly_usage_labels) (simp add: monthly_usage_series_seasons)
qed

end
